theory Spec2Isabelle
  imports Complex_Main
begin

section \<open>Python values and exceptions\<close>

text \<open>
  The exceptions that \<^verbatim>\<open>process_xml.py\<close> can raise. A raise is the value
  \<open>Inl e\<close> of the result type \<open>error + 'a\<close>; a normal return is \<open>Inr v\<close>.
\<close>

datatype error =
  ParseError | AttributeError | TypeError | ValueError
  | KeyError | ZeroDivisionError | OverflowError | IndexError

definition err_bind :: "error + 'a \<Rightarrow> ('a \<Rightarrow> error + 'b) \<Rightarrow> error + 'b" where
  "err_bind m f = (case m of Inl e \<Rightarrow> Inl e | Inr v \<Rightarrow> f v)"

text \<open>\<^verbatim>\<open>str(x)\<close> as an f-string applies it: \<^verbatim>\<open>None\<close> prints as \<^verbatim>\<open>None\<close>.\<close>

definition py_str :: "string option \<Rightarrow> string" where
  "py_str x = (case x of None \<Rightarrow> ''None'' | Some s \<Rightarrow> s)"

subsection \<open>The built-in int on text\<close>

text \<open>
  \<^verbatim>\<open>int(s)\<close> in base 10: surrounding white space is dropped, one sign is allowed,
  then decimal digits follow, single underscores allowed between two digits. \<^verbatim>\<open>int(None)\<close>
  raises TypeError, any other text ValueError. A character is a code point below 256;
  the decimal digits of other scripts are outside this model.
\<close>

definition is_space :: "char \<Rightarrow> bool" where
  "is_space c = ((of_char c :: nat) \<in> {9, 10, 11, 12, 13, 32, 133, 160})"

definition is_digit :: "char \<Rightarrow> bool" where
  "is_digit c = (48 \<le> (of_char c :: nat) \<and> (of_char c :: nat) \<le> 57)"

definition digit_val :: "char \<Rightarrow> nat" where
  "digit_val c = of_char c - 48"

fun digits_value :: "nat \<Rightarrow> string \<Rightarrow> nat option" where
  "digits_value acc [] = Some acc"
| "digits_value acc (c # cs) =
     (if is_digit c then digits_value (10 * acc + digit_val c) cs
      else if c = CHR ''_'' then
        (case cs of
           [] \<Rightarrow> None
         | d # _ \<Rightarrow> if is_digit d then digits_value acc cs else None)
      else None)"

definition parse_digits :: "string \<Rightarrow> nat option" where
  "parse_digits s =
     (case s of
        [] \<Rightarrow> None
      | c # _ \<Rightarrow> if is_digit c then digits_value 0 s else None)"

definition strip :: "string \<Rightarrow> string" where
  "strip s = rev (dropWhile is_space (rev (dropWhile is_space s)))"

definition py_int :: "string option \<Rightarrow> error + int" where
  "py_int x =
     (case x of
        None \<Rightarrow> Inl TypeError
      | Some s \<Rightarrow>
          (case strip s of
             [] \<Rightarrow> Inl ValueError
           | c # cs \<Rightarrow>
               if c = CHR ''-'' then
                 (case parse_digits cs of
                    None \<Rightarrow> Inl ValueError
                  | Some n \<Rightarrow> Inr (- int n))
               else if c = CHR ''+'' then
                 (case parse_digits cs of
                    None \<Rightarrow> Inl ValueError
                  | Some n \<Rightarrow> Inr (int n))
               else
                 (case parse_digits (c # cs) of
                    None \<Rightarrow> Inl ValueError
                  | Some n \<Rightarrow> Inr (int n))))"

subsection \<open>True division of two integers\<close>

text \<open>
  \<^verbatim>\<open>a / b\<close> on two Python integers: ZeroDivisionError when \<open>b = 0\<close>, OverflowError
  when the quotient, rounded to the nearest binary64 number, is not finite, that is when
  its magnitude reaches \<open>2^1024 - 2^970\<close>. Otherwise the result is the quotient; its
  rounding to 53 bits is not modelled, the value kept here is the exact rational.
\<close>

definition py_truediv :: "int \<Rightarrow> int \<Rightarrow> error + rat" where
  "py_truediv a b =
     (if b = 0 then Inl ZeroDivisionError
      else if 2 ^ 1024 - 2 ^ 970 \<le> \<bar>of_int a / of_int b :: rat\<bar> then Inl OverflowError
      else Inr (of_int a / of_int b))"

section \<open>The parsed document\<close>

text \<open>
  An \<^verbatim>\<open>xml.etree.ElementTree.Element\<close>: its tag (a namespaced tag is
  \<^verbatim>\<open>{uri}local\<close>), its attributes, its text (\<^verbatim>\<open>None\<close> when the element has
  none before its first child) and its children in document order.
\<close>

datatype element =
  Element (el_tag: string) (el_attrib: "(string \<times> string) list")
    (el_text: "string option") (el_children: "element list")

text \<open>
  The two path forms the module uses with the prefix \<^verbatim>\<open>ns\<close>:
  \<^verbatim>\<open>.//ns:X\<close> (every element below the current one, in document order) and
  \<^verbatim>\<open>ns:X\<close> (the children of the current one).
\<close>

datatype path = Desc string | Child string

definition qname :: "string \<Rightarrow> string" where
  "qname local = ''{http://www.orienteering.org/datastandard/3.0}'' @ local"

fun descendants :: "element \<Rightarrow> element list" where
  "descendants (Element t a x cs) = concat (map (\<lambda>c. c # descendants c) cs)"

fun findall :: "element \<Rightarrow> path \<Rightarrow> element list" where
  "findall e (Desc local) = filter (\<lambda>d. el_tag d = qname local) (descendants e)"
| "findall e (Child local) = filter (\<lambda>d. el_tag d = qname local) (el_children e)"

definition find :: "element \<Rightarrow> path \<Rightarrow> element option" where
  "find e p = (case findall e p of [] \<Rightarrow> None | x # _ \<Rightarrow> Some x)"

text \<open>
  \<^verbatim>\<open>x.find(p)\<close> and \<^verbatim>\<open>x.text\<close> where \<^verbatim>\<open>x\<close> is the result of an earlier
  \<^verbatim>\<open>find\<close>: on \<^verbatim>\<open>None\<close> the attribute access raises AttributeError.
\<close>

definition find_opt :: "path \<Rightarrow> element option \<Rightarrow> error + element option" where
  "find_opt p x = (case x of None \<Rightarrow> Inl AttributeError | Some e \<Rightarrow> Inr (find e p))"

definition text_opt :: "element option \<Rightarrow> error + string option" where
  "text_opt x = (case x of None \<Rightarrow> Inl AttributeError | Some e \<Rightarrow> Inr (el_text e))"

section \<open>The report\<close>

record event_data =
  ev_name :: "string option"
  ev_class :: "string option"
  ev_date :: "string option"

text \<open>
  A split as \<^verbatim>\<open>_compute_split_information\<close> builds it, and as
  \<^verbatim>\<open>_add_split_analysis\<close> leaves it, with the two keys it adds.
\<close>

record split =
  control_code :: "string option"
  time :: "int option"
  split_time :: "int option"

record split_analysis = split +
  split_gap :: "int option"
  percentage_gap :: "rat option"

record 's person =
  name :: string
  club :: "string option"
  status :: "string option"
  position :: "int option"
  total_time :: int
  splits :: "'s list"

record report =
  event_data :: event_data
  results :: "split_analysis person list"
  winning_time :: int

section \<open>The pipeline\<close>

definition extract_event_data :: "element \<Rightarrow> error + event_data" where
  "extract_event_data xroot =
     (let event = find xroot (Desc ''Event'') in
      err_bind (err_bind (find_opt (Desc ''Name'') event) text_opt) (\<lambda>name.
      err_bind (err_bind (find_opt (Desc ''Date'') event) text_opt) (\<lambda>date.
      let class_result = find xroot (Desc ''ClassResult'') in
      err_bind (err_bind (find_opt (Desc ''Name'') class_result) text_opt) (\<lambda>class_name.
      Inr \<lparr>ev_name = name, ev_class = class_name, ev_date = date\<rparr>))))"

text \<open>
  The loop of \<^verbatim>\<open>_compute_split_information\<close> over the SplitTime elements;
  \<open>previous_time\<close> is the loop variable of that name.
\<close>

fun split_loop :: "int option \<Rightarrow> element list \<Rightarrow> error + split list" where
  "split_loop previous_time [] = Inr []"
| "split_loop previous_time (s # rest) =
     (let status = map_of (el_attrib s) ''status'' in
      case text_opt (find s (Child ''ControlCode'')) of
        Inl e \<Rightarrow> Inl e
      | Inr code \<Rightarrow>
          (case (if status = Some ''Missing'' then Inr None
                 else err_bind (err_bind (text_opt (find s (Child ''Time''))) py_int)
                        (\<lambda>n. Inr (Some n))) of
             Inl e \<Rightarrow> Inl e
           | Inr t \<Rightarrow>
               (let st = (case previous_time of
                            None \<Rightarrow> None
                          | Some p \<Rightarrow> (case t of None \<Rightarrow> None | Some n \<Rightarrow> Some (n - p)))
                in case split_loop t rest of
                     Inl e \<Rightarrow> Inl e
                   | Inr others \<Rightarrow>
                       Inr (\<lparr>control_code = code, time = t, split_time = st\<rparr> # others))))"

definition compute_split_information :: "element \<Rightarrow> error + split list" where
  "compute_split_information person_result =
     split_loop (Some 0) (findall person_result (Desc ''SplitTime''))"

definition extract_person_result :: "element \<Rightarrow> error + split person" where
  "extract_person_result person_result =
     (let name_el = find person_result (Desc ''Name'') in
      err_bind (err_bind (find_opt (Child ''Family'') name_el) text_opt) (\<lambda>family_name.
      err_bind (err_bind (find_opt (Child ''Given'') name_el) text_opt) (\<lambda>given_name.
      let organisation = find person_result (Desc ''Organisation'') in
      err_bind (err_bind (find_opt (Child ''Name'') organisation) text_opt) (\<lambda>club_name.
      let result = find person_result (Desc ''Result'') in
      err_bind (err_bind (find_opt (Desc ''Status'') result) text_opt) (\<lambda>st.
      err_bind (if st = Some ''OK''
                then err_bind (err_bind (err_bind (find_opt (Child ''Position'') result)
                       text_opt) py_int) (\<lambda>n. Inr (Some n))
                else Inr None) (\<lambda>pos.
      err_bind (err_bind (err_bind (find_opt (Desc ''Time'') result) text_opt) py_int)
        (\<lambda>total.
      err_bind (compute_split_information person_result) (\<lambda>sp.
      Inr \<lparr>name = py_str given_name @ '' '' @ py_str family_name, club = club_name,
           status = st, position = pos, total_time = total, splits = sp\<rparr>))))))))"

fun result_loop :: "element list \<Rightarrow> error + split person list" where
  "result_loop [] = Inr []"
| "result_loop (person_result # rest) =
     (case extract_person_result person_result of
        Inl e \<Rightarrow> Inl e
      | Inr person_dict \<Rightarrow>
          (case result_loop rest of
             Inl e \<Rightarrow> Inl e
           | Inr others \<Rightarrow> Inr (person_dict # others)))"

definition extract_result_list :: "element \<Rightarrow> error + split person list" where
  "extract_result_list xroot = result_loop (findall xroot (Desc ''PersonResult''))"

text \<open>The body of the inner loop of \<^verbatim>\<open>_compute_best_split_times\<close>.\<close>

definition best_step :: "split \<Rightarrow> (string option \<rightharpoonup> int) \<Rightarrow> (string option \<rightharpoonup> int)" where
  "best_step s best_split_times =
     (case split_time s of
        None \<Rightarrow> best_split_times
      | Some t \<Rightarrow>
          (case best_split_times (control_code s) of
             None \<Rightarrow> best_split_times(control_code s \<mapsto> t)
           | Some b \<Rightarrow>
               if t < b then best_split_times(control_code s \<mapsto> t)
               else best_split_times))"

definition compute_best_split_times :: "split person list \<Rightarrow> (string option \<rightharpoonup> int)" where
  "compute_best_split_times result_list =
     fold (\<lambda>person. fold best_step (splits person)) result_list Map.empty"

text \<open>
  The body of the inner loop of \<^verbatim>\<open>_add_split_analysis\<close>: the best time is looked up
  before the split time is tested.
\<close>

definition analyse_split :: "(string option \<rightharpoonup> int) \<Rightarrow> split \<Rightarrow> error + split_analysis" where
  "analyse_split best_split_times s =
     (case best_split_times (control_code s) of
        None \<Rightarrow> Inl KeyError
      | Some best_split_time \<Rightarrow>
          (case split_time s of
             None \<Rightarrow>
               Inr \<lparr>control_code = control_code s, time = time s, split_time = split_time s,
                    split_gap = None, percentage_gap = None\<rparr>
           | Some t \<Rightarrow>
               (let gap = t - best_split_time in
                case py_truediv gap best_split_time of
                  Inl e \<Rightarrow> Inl e
                | Inr q \<Rightarrow>
                    Inr \<lparr>control_code = control_code s, time = time s,
                         split_time = split_time s,
                         split_gap = Some gap, percentage_gap = Some (q * 100)\<rparr>)))"

fun analyse_splits :: "(string option \<rightharpoonup> int) \<Rightarrow> split list \<Rightarrow> error + split_analysis list" where
  "analyse_splits best_split_times [] = Inr []"
| "analyse_splits best_split_times (s # rest) =
     (case analyse_split best_split_times s of
        Inl e \<Rightarrow> Inl e
      | Inr s' \<Rightarrow>
          (case analyse_splits best_split_times rest of
             Inl e \<Rightarrow> Inl e
           | Inr others \<Rightarrow> Inr (s' # others)))"

fun add_split_analysis ::
  "split person list \<Rightarrow> (string option \<rightharpoonup> int) \<Rightarrow> error + split_analysis person list" where
  "add_split_analysis [] best_split_times = Inr []"
| "add_split_analysis (p # rest) best_split_times =
     (case analyse_splits best_split_times (splits p) of
        Inl e \<Rightarrow> Inl e
      | Inr sp \<Rightarrow>
          (case add_split_analysis rest best_split_times of
             Inl e \<Rightarrow> Inl e
           | Inr others \<Rightarrow>
               Inr (\<lparr>name = name p, club = club p, status = status p,
                     position = position p, total_time = total_time p, splits = sp\<rparr>
                    # others)))"

text \<open>
  \<^verbatim>\<open>process_xml\<close>; \<open>fromstring\<close> stands for \<^verbatim>\<open>ET.fromstring\<close>, the XML parser
  of the standard library, which raises on text that is not well-formed.
\<close>

definition process_xml :: "(string \<Rightarrow> error + element) \<Rightarrow> string \<Rightarrow> error + report" where
  "process_xml fromstring xml_content =
     err_bind (fromstring xml_content) (\<lambda>xroot.
     err_bind (extract_event_data xroot) (\<lambda>ev.
     err_bind (extract_result_list xroot) (\<lambda>result_list.
     let best_split_times = compute_best_split_times result_list in
     err_bind (add_split_analysis result_list best_split_times) (\<lambda>annotated.
     case annotated of
       [] \<Rightarrow> Inl IndexError
     | first # _ \<Rightarrow>
         Inr \<lparr>event_data = ev, results = annotated, winning_time = total_time first\<rparr>))))"

section \<open>Sample documents\<close>

text \<open>
  Small result lists in the shape of the IOF format, used to run the pipeline on concrete
  input: an element without attributes, a punch, a punch marked as missing, a competitor
  and a document with one event and one class.
\<close>

definition el :: "string \<Rightarrow> string option \<Rightarrow> element list \<Rightarrow> element" where
  "el local txt cs = Element (qname local) [] txt cs"

definition punch :: "string \<Rightarrow> string \<Rightarrow> element" where
  "punch code t =
     el ''SplitTime'' None [el ''ControlCode'' (Some code) [], el ''Time'' (Some t) []]"

definition missing_punch :: "string \<Rightarrow> element" where
  "missing_punch code =
     Element (qname ''SplitTime'') [(''status'', ''Missing'')] None
       [el ''ControlCode'' (Some code) []]"

definition runner ::
  "string \<Rightarrow> string \<Rightarrow> string \<Rightarrow> string \<Rightarrow> string \<Rightarrow> string \<Rightarrow> element list \<Rightarrow> element" where
  "runner given family org st pos tot punches =
     el ''PersonResult'' None
       [el ''Person'' None
          [el ''Name'' None [el ''Family'' (Some family) [], el ''Given'' (Some given) []]],
        el ''Organisation'' None [el ''Name'' (Some org) []],
        el ''Result'' None
          ([el ''Status'' (Some st) [], el ''Position'' (Some pos) [],
            el ''Time'' (Some tot) []] @ punches)]"

definition result_doc :: "string option \<Rightarrow> element list \<Rightarrow> element" where
  "result_doc event_name prs =
     el ''ResultList'' None
       [el ''Event'' None [el ''Name'' event_name [], el ''Date'' (Some ''2024-05-01'') []],
        el ''ClassResult'' None (el ''Name'' (Some ''H21'') [] # prs)]"

text \<open>Two finishers; the first in document order is the slower one.\<close>

definition two_runners :: element where
  "two_runners =
     result_doc (Some ''Cup'')
       [runner ''Ann'' ''Lee'' ''OK Nord'' ''OK'' ''2'' ''300''
          [punch ''31'' ''100'', punch ''32'' ''250''],
        runner ''Bo'' ''Ek'' ''IF Syd'' ''OK'' ''1'' ''200''
          [punch ''31'' ''150'', punch ''32'' ''200'']]"

text \<open>One competitor who missed the second of four controls.\<close>

definition missed_second :: element where
  "missed_second =
     runner ''Ann'' ''Lee'' ''OK Nord'' ''MissingPunch'' ''7'' ''480''
       [punch ''31'' ''100'', missing_punch ''32'', punch ''33'' ''300'',
        punch ''34'' ''420'']"

text \<open>The result list that is extracted from \<open>two_runners\<close>.\<close>

definition two_results :: "split person list" where
  "two_results =
     [\<lparr>name = ''Ann Lee'', club = Some ''OK Nord'', status = Some ''OK'',
       position = Some 2, total_time = 300,
       splits =
         [\<lparr>control_code = Some ''31'', time = Some 100, split_time = Some 100\<rparr>,
          \<lparr>control_code = Some ''32'', time = Some 250, split_time = Some 150\<rparr>]\<rparr>,
      \<lparr>name = ''Bo Ek'', club = Some ''IF Syd'', status = Some ''OK'',
       position = Some 1, total_time = 200,
       splits =
         [\<lparr>control_code = Some ''31'', time = Some 150, split_time = Some 150\<rparr>,
          \<lparr>control_code = Some ''32'', time = Some 200, split_time = Some 50\<rparr>]\<rparr>]"

text \<open>The same list after the annotation pass, and the report of \<open>two_runners\<close>.\<close>

definition two_annotated :: "split_analysis person list" where
  "two_annotated =
     [\<lparr>name = ''Ann Lee'', club = Some ''OK Nord'', status = Some ''OK'',
       position = Some 2, total_time = 300,
       splits =
         [\<lparr>control_code = Some ''31'', time = Some 100, split_time = Some 100,
           split_gap = Some 0, percentage_gap = Some 0\<rparr>,
          \<lparr>control_code = Some ''32'', time = Some 250, split_time = Some 150,
           split_gap = Some 100, percentage_gap = Some 200\<rparr>]\<rparr>,
      \<lparr>name = ''Bo Ek'', club = Some ''IF Syd'', status = Some ''OK'',
       position = Some 1, total_time = 200,
       splits =
         [\<lparr>control_code = Some ''31'', time = Some 150, split_time = Some 150,
           split_gap = Some 50, percentage_gap = Some 50\<rparr>,
          \<lparr>control_code = Some ''32'', time = Some 200, split_time = Some 50,
           split_gap = Some 0, percentage_gap = Some 0\<rparr>]\<rparr>]"

text \<open>A parser whose outcome is the given tree, to run \<open>process_xml\<close> on a sample.\<close>

definition parsed_as :: "element \<Rightarrow> string \<Rightarrow> error + element" where
  "parsed_as tree xml_content = Inr tree"

definition two_report :: report where
  "two_report =
     \<lparr>event_data = \<lparr>ev_name = Some ''Cup'', ev_class = Some ''H21'',
                     ev_date = Some ''2024-05-01''\<rparr>,
      results = two_annotated, winning_time = 300\<rparr>"

text \<open>The result list that is extracted from a document with \<open>missed_second\<close> alone.\<close>

definition missed_results :: "split person list" where
  "missed_results =
     [\<lparr>name = ''Ann Lee'', club = Some ''OK Nord'', status = Some ''MissingPunch'',
       position = None, total_time = 480,
       splits =
         [\<lparr>control_code = Some ''31'', time = Some 100, split_time = Some 100\<rparr>,
          \<lparr>control_code = Some ''32'', time = None, split_time = None\<rparr>,
          \<lparr>control_code = Some ''33'', time = Some 300, split_time = None\<rparr>,
          \<lparr>control_code = Some ''34'', time = Some 420, split_time = Some 120\<rparr>]\<rparr>]"

text \<open>A competitor whose first control is punched at second 0.\<close>

definition standing_start :: "split person list" where
  "standing_start =
     [\<lparr>name = ''Ann Lee'', club = Some ''OK Nord'', status = Some ''OK'',
       position = Some 1, total_time = 300,
       splits = [\<lparr>control_code = Some ''31'', time = Some 0, split_time = Some 0\<rparr>]\<rparr>]"

text \<open>Two competitors at one control, the second with a time of \<open>2^1024\<close> seconds.\<close>

definition huge_gap :: "split person list" where
  "huge_gap =
     [\<lparr>name = ''Ann Lee'', club = Some ''OK Nord'', status = Some ''OK'',
       position = Some 1, total_time = 300,
       splits = [\<lparr>control_code = Some ''31'', time = Some 1, split_time = Some 1\<rparr>]\<rparr>,
      \<lparr>name = ''Bo Ek'', club = Some ''IF Syd'', status = Some ''OK'',
       position = Some 2, total_time = 2 ^ 1024,
       splits =
         [\<lparr>control_code = Some ''31'', time = Some (2 ^ 1024),
           split_time = Some (2 ^ 1024)\<rparr>]\<rparr>]"

text \<open>The document of \<open>standing_start\<close>.\<close>

definition standing_doc :: element where
  "standing_doc =
     result_doc (Some ''Cup'')
       [runner ''Ann'' ''Lee'' ''OK Nord'' ''OK'' ''1'' ''300'' [punch ''31'' ''0'']]"

text \<open>The first competitor of \<open>two_runners\<close>.\<close>

definition ann :: element where
  "ann = runner ''Ann'' ''Lee'' ''OK Nord'' ''OK'' ''2'' ''300''
           [punch ''31'' ''100'', punch ''32'' ''250'']"

section \<open>What the extraction reads\<close>






text \<open>A class whose second competitor has no Organisation element.\<close>

definition no_club :: element where
  "no_club =
     result_doc (Some ''Cup'')
       [ann,
        el ''PersonResult'' None
          [el ''Person'' None
             [el ''Name'' None [el ''Family'' (Some ''Ek'') [], el ''Given'' (Some ''Bo'') []]],
           el ''Result'' None
             [el ''Status'' (Some ''OK'') [], el ''Position'' (Some ''1'') [],
              el ''Time'' (Some ''200'') []]]]"








section \<open>Basic facts\<close>

lemma err_bind_Inl [simp]: "err_bind (Inl e) f = Inl e"
  by (simp add: err_bind_def)

lemma err_bind_Inr [simp]: "err_bind (Inr v) f = f v"
  by (simp add: err_bind_def)

lemma err_bind_eq_Inr: "err_bind m f = Inr y \<longleftrightarrow> (\<exists>v. m = Inr v \<and> f v = Inr y)"
  by (cases m) simp_all

section \<open>Best split times\<close>

text \<open>What one step of the scan does to the entry of a control \<open>c\<close>.\<close>

lemma best_step_apply:
  "best_step s m c =
     (if control_code s = c then
        (case split_time s of
           None \<Rightarrow> m c
         | Some t \<Rightarrow> (case m c of None \<Rightarrow> Some t | Some b \<Rightarrow> Some (min t b)))
      else m c)"
  by (auto simp: best_step_def min_def split: option.splits)

lemma fold_best_step_None:
  "(fold best_step ss m c = None) =
     (m c = None \<and> (\<forall>s\<in>set ss. control_code s = c \<longrightarrow> split_time s = None))"
  by (induction ss arbitrary: m) (auto simp: best_step_apply split: option.splits)

lemma fold_best_step_lower:
  "fold best_step ss m c = Some b \<Longrightarrow>
     (\<forall>b0. m c = Some b0 \<longrightarrow> b \<le> b0) \<and>
     (\<forall>s\<in>set ss. control_code s = c \<longrightarrow> (\<forall>t. split_time s = Some t \<longrightarrow> b \<le> t))"
proof (induction ss arbitrary: m)
  case Nil
  then show ?case by simp
next
  case (Cons s ss)
  from Cons.prems have "fold best_step ss (best_step s m) c = Some b" by simp
  from Cons.IH [OF this]
  have 1: "\<forall>b0. best_step s m c = Some b0 \<longrightarrow> b \<le> b0"
    and 2: "\<forall>s\<in>set ss. control_code s = c \<longrightarrow> (\<forall>t. split_time s = Some t \<longrightarrow> b \<le> t)"
    by blast+
  from 1 have "\<forall>b0. m c = Some b0 \<longrightarrow> b \<le> b0"
    by (auto simp: best_step_apply split: if_splits option.splits)
  moreover from 1 have "control_code s = c \<longrightarrow> (\<forall>t. split_time s = Some t \<longrightarrow> b \<le> t)"
    by (auto simp: best_step_apply split: if_splits option.splits)
  ultimately show ?case using 2 by simp
qed

lemma fold_best_step_achieved:
  "fold best_step ss m c = Some b \<Longrightarrow>
     m c = Some b \<or> (\<exists>s\<in>set ss. control_code s = c \<and> split_time s = Some b)"
proof (induction ss arbitrary: m)
  case Nil
  then show ?case by simp
next
  case (Cons s ss)
  from Cons.prems have "fold best_step ss (best_step s m) c = Some b" by simp
  from Cons.IH [OF this]
  have "best_step s m c = Some b \<or> (\<exists>s\<in>set ss. control_code s = c \<and> split_time s = Some b)" .
  then show ?case
    by (auto simp: best_step_apply min_def split: if_splits option.splits)
qed

lemma fold_fold_concat: "fold (\<lambda>x. fold f (g x)) xs a = fold f (concat (map g xs)) a"
  by (induction xs arbitrary: a) simp_all

text \<open>The two nested loops scan the splits of all competitors in one sequence.\<close>

lemma compute_best_split_times_concat:
  "compute_best_split_times result_list =
     fold best_step (concat (map splits result_list)) Map.empty"
  by (simp add: compute_best_split_times_def fold_fold_concat)

lemma best_split_time_le:
  assumes "compute_best_split_times result_list c = Some b"
    and "p \<in> set result_list" and "s \<in> set (splits p)"
    and "control_code s = c" and "split_time s = Some t"
  shows "b \<le> t"
proof -
  from assms(1)
  have "fold best_step (concat (map splits result_list)) Map.empty c = Some b"
    by (simp add: compute_best_split_times_concat)
  from fold_best_step_lower [OF this] assms(2-5) show ?thesis
    by auto
qed

lemma best_split_time_present:
  assumes "p \<in> set result_list" and "s \<in> set (splits p)" and "split_time s = Some t"
  shows "\<exists>b. compute_best_split_times result_list (control_code s) = Some b"
proof (rule ccontr)
  assume "\<not> ?thesis"
  then have "fold best_step (concat (map splits result_list)) Map.empty (control_code s) = None"
    by (simp add: compute_best_split_times_concat)
  with assms show False
    by (auto simp: fold_best_step_None)
qed

text \<open>
  C5. For a control \<open>c\<close> in the mapping of best split times, the recorded value is at most
  every present split time at \<open>c\<close> of every competitor and is one of them; a control \<open>c'\<close>
  at which no competitor has a present split time is not in the mapping.
\<close>

theorem best_split_times_are_minima:
  "(compute_best_split_times result_list c = Some b \<longrightarrow>
      (\<forall>p\<in>set result_list. \<forall>s\<in>set (splits p).
         control_code s = c \<longrightarrow> (\<forall>t. split_time s = Some t \<longrightarrow> b \<le> t)) \<and>
      (\<exists>p\<in>set result_list. \<exists>s\<in>set (splits p). control_code s = c \<and> split_time s = Some b)) \<and>
   ((\<forall>p\<in>set result_list. \<forall>s\<in>set (splits p). control_code s = c' \<longrightarrow> split_time s = None) \<longrightarrow>
      compute_best_split_times result_list c' = None)"
proof (intro conjI impI)
  assume h: "compute_best_split_times result_list c = Some b"
  then have f: "fold best_step (concat (map splits result_list)) Map.empty c = Some b"
    by (simp add: compute_best_split_times_concat)
  from fold_best_step_lower [OF f]
  show "\<forall>p\<in>set result_list. \<forall>s\<in>set (splits p).
         control_code s = c \<longrightarrow> (\<forall>t. split_time s = Some t \<longrightarrow> b \<le> t)"
    by auto
  from fold_best_step_achieved [OF f]
  show "\<exists>p\<in>set result_list. \<exists>s\<in>set (splits p). control_code s = c \<and> split_time s = Some b"
    by auto
next
  assume "\<forall>p\<in>set result_list. \<forall>s\<in>set (splits p). control_code s = c' \<longrightarrow> split_time s = None"
  then show "compute_best_split_times result_list c' = None"
    by (simp add: compute_best_split_times_concat fold_best_step_None)
qed

theorem best_split_times_are_minima_witness:
  "compute_best_split_times two_results (Some ''31'') = Some 100 \<and>
   list_all (\<lambda>p. list_all (\<lambda>s. control_code s = Some ''31'' \<longrightarrow>
                                (\<forall>t. split_time s = Some t \<longrightarrow> 100 \<le> t)) (splits p))
     two_results \<and>
   (\<exists>p\<in>set two_results. \<exists>s\<in>set (splits p).
      control_code s = Some ''31'' \<and> split_time s = Some 100) \<and>
   list_all (\<lambda>p. list_all (\<lambda>s. control_code s = Some ''99'' \<longrightarrow> split_time s = None)
                     (splits p)) two_results \<and>
   compute_best_split_times two_results (Some ''99'') = None"
proof -
  have h1: "compute_best_split_times two_results (Some ''31'') = Some 100"
    by (simp add: compute_best_split_times_def two_results_def best_step_def)
  have h2: "\<forall>p\<in>set two_results. \<forall>s\<in>set (splits p).
      control_code s = Some ''99'' \<longrightarrow> split_time s = None"
    by (simp add: two_results_def)
  from best_split_times_are_minima [of two_results "Some ''31''" 100 "Some ''99''"] h1 h2
  show ?thesis unfolding list_all_iff by blast
qed

section \<open>The samples, evaluated\<close>

lemma two_results_annotated:
  "add_split_analysis two_results (compute_best_split_times two_results) = Inr two_annotated"
  by (simp add: two_results_def two_annotated_def compute_best_split_times_def best_step_def
      analyse_split_def py_truediv_def)

lemma two_runners_results: "extract_result_list two_runners = Inr two_results"
  by code_simp

lemma two_runners_event:
  "extract_event_data two_runners =
     Inr \<lparr>ev_name = Some ''Cup'', ev_class = Some ''H21'', ev_date = Some ''2024-05-01''\<rparr>"
  by code_simp

lemma two_runners_report: "process_xml (parsed_as two_runners) [] = Inr two_report"
  by (simp add: process_xml_def parsed_as_def two_runners_results two_runners_event
      two_results_annotated two_report_def)
    (simp add: two_annotated_def)

lemma missed_doc_results:
  "extract_result_list (result_doc (Some ''Cup'') [missed_second]) = Inr missed_results"
  by code_simp

lemma missed_doc_event:
  "extract_event_data (result_doc (Some ''Cup'') [missed_second]) =
     Inr \<lparr>ev_name = Some ''Cup'', ev_class = Some ''H21'', ev_date = Some ''2024-05-01''\<rparr>"
  by code_simp

lemma missed_results_KeyError:
  "add_split_analysis missed_results (compute_best_split_times missed_results) = Inl KeyError"
  by (simp add: missed_results_def compute_best_split_times_def best_step_def
      analyse_split_def py_truediv_def)

section \<open>The annotation pass\<close>

lemma analyse_split_Inr:
  assumes "analyse_split best s = Inr s'"
  shows "control_code s' = control_code s \<and> time s' = time s \<and> split_time s' = split_time s"
  using assms
  by (auto simp: analyse_split_def Let_def split: option.splits sum.splits)

lemma analyse_split_gap:
  assumes "analyse_split best s = Inr s'" and "split_time s = Some t"
  shows "\<exists>b. best (control_code s) = Some b \<and> split_gap s' = Some (t - b)"
  using assms
  by (auto simp: analyse_split_def Let_def split: option.splits sum.splits)

lemma analyse_splits_all2:
  "analyse_splits best ss = Inr ss' \<Longrightarrow>
     list_all2 (\<lambda>s s'. analyse_split best s = Inr s') ss ss'"
  by (induction ss arbitrary: ss') (auto split: sum.splits)

lemma add_split_analysis_all2:
  "add_split_analysis result_list best = Inr annotated \<Longrightarrow>
     list_all2 (\<lambda>p p'. name p' = name p \<and> club p' = club p \<and> status p' = status p \<and>
                  position p' = position p \<and> total_time p' = total_time p \<and>
                  analyse_splits best (splits p) = Inr (splits p'))
       result_list annotated"
  by (induction result_list arbitrary: annotated) (auto split: sum.splits)

lemma list_all2_right_member:
  "list_all2 P xs ys \<Longrightarrow> y \<in> set ys \<Longrightarrow> \<exists>x\<in>set xs. P x y"
  by (induction rule: list_all2_induct) auto

lemma annotated_split_origin:
  assumes "add_split_analysis result_list best = Inr annotated"
    and "p' \<in> set annotated" and "s' \<in> set (splits p')"
  shows "\<exists>p\<in>set result_list. \<exists>s\<in>set (splits p). analyse_split best s = Inr s'"
proof -
  from list_all2_right_member [OF add_split_analysis_all2 [OF assms(1)] assms(2)]
  obtain p where p: "p \<in> set result_list"
    and sp: "analyse_splits best (splits p) = Inr (splits p')"
    by blast
  from list_all2_right_member [OF analyse_splits_all2 [OF sp] assms(3)] p
  show ?thesis by blast
qed

lemma process_xml_Inr:
  assumes "process_xml fromstring xml = Inr r"
  shows "\<exists>xroot ev rl first rest.
           fromstring xml = Inr xroot \<and> extract_event_data xroot = Inr ev \<and>
           extract_result_list xroot = Inr rl \<and>
           add_split_analysis rl (compute_best_split_times rl) = Inr (first # rest) \<and>
           r = \<lparr>event_data = ev, results = first # rest, winning_time = total_time first\<rparr>"
proof -
  from assms obtain xroot ev rl annotated where
    a: "fromstring xml = Inr xroot" "extract_event_data xroot = Inr ev"
      "extract_result_list xroot = Inr rl"
      "add_split_analysis rl (compute_best_split_times rl) = Inr annotated"
    and b: "(case annotated of
               [] \<Rightarrow> Inl IndexError
             | first # _ \<Rightarrow>
                 Inr \<lparr>event_data = ev, results = annotated,
                      winning_time = total_time first\<rparr>) = Inr r"
    unfolding process_xml_def err_bind_eq_Inr Let_def by blast
  from b obtain first rest where "annotated = first # rest"
    by (cases annotated) simp_all
  with a b show ?thesis by auto
qed

lemma analyse_splits_fails:
  "s \<in> set ss \<Longrightarrow> analyse_split best s = Inl e \<Longrightarrow> \<exists>e'. analyse_splits best ss = Inl e'"
  by (induction ss) (auto split: sum.splits)

lemma add_split_analysis_fails:
  "p \<in> set result_list \<Longrightarrow> analyse_splits best (splits p) = Inl e \<Longrightarrow>
     \<exists>e'. add_split_analysis result_list best = Inl e'"
  by (induction result_list) (auto split: sum.splits)

lemma process_xml_fails:
  assumes "fromstring xml = Inr xroot" and "extract_result_list xroot = Inr rl"
    and "add_split_analysis rl (compute_best_split_times rl) = Inl e"
  shows "\<exists>e'. process_xml fromstring xml = Inl e'"
  using assms
  by (cases "extract_event_data xroot") (simp_all add: process_xml_def)

text \<open>
  C6. After the annotation pass over a result list, with the best split times computed from
  that list, every split with a present split time has as \<open>split_gap\<close> its split time
  minus the best split time of its control, and that gap is not negative.
\<close>

theorem split_gap_is_distance_to_best:
  assumes "add_split_analysis result_list (compute_best_split_times result_list) = Inr annotated"
    and "p \<in> set annotated" and "s \<in> set (splits p)" and "split_time s = Some t"
  shows "\<exists>b. compute_best_split_times result_list (control_code s) = Some b \<and>
             split_gap s = Some (t - b) \<and> 0 \<le> t - b"
proof -
  from annotated_split_origin [OF assms(1-3)]
  obtain p0 s0 where p0: "p0 \<in> set result_list" and s0: "s0 \<in> set (splits p0)"
    and a: "analyse_split (compute_best_split_times result_list) s0 = Inr s"
    by blast
  from analyse_split_Inr [OF a] assms(4)
  have same: "control_code s = control_code s0" "split_time s0 = Some t"
    by simp_all
  from analyse_split_gap [OF a same(2)]
  obtain b where b: "compute_best_split_times result_list (control_code s0) = Some b"
    and g: "split_gap s = Some (t - b)"
    by blast
  from best_split_time_le [OF b p0 s0 refl same(2)] have "b \<le> t" .
  with b g same(1) show ?thesis by simp
qed

theorem split_gap_is_distance_to_best_witness:
  "add_split_analysis two_results (compute_best_split_times two_results) = Inr two_annotated \<and>
   two_annotated ! 1 \<in> set two_annotated \<and>
   splits (two_annotated ! 1) ! 0 \<in> set (splits (two_annotated ! 1)) \<and>
   split_time (splits (two_annotated ! 1) ! 0) = Some 150 \<and>
   (\<exists>b. compute_best_split_times two_results
          (control_code (splits (two_annotated ! 1) ! 0)) = Some b \<and>
        split_gap (splits (two_annotated ! 1) ! 0) = Some (150 - b) \<and> 0 \<le> 150 - b)"
proof -
  have p: "two_annotated ! 1 \<in> set two_annotated"
    by (simp add: two_annotated_def)
  have s: "splits (two_annotated ! 1) ! 0 \<in> set (splits (two_annotated ! 1))"
    by (simp add: two_annotated_def)
  have t: "split_time (splits (two_annotated ! 1) ! 0) = Some 150"
    by (simp add: two_annotated_def)
  from split_gap_is_distance_to_best [OF two_results_annotated p s t] two_results_annotated p s t
  show ?thesis by blast
qed

text \<open>
  C2. A split with an absent split time at a control that is not in the mapping of best
  split times: the lookup of the best time comes first in the loop body and raises, so the
  pass does not complete. Here the competitor of \<open>missed_second\<close> is alone in the class;
  nobody has a split time at control 32.
\<close>

theorem absent_split_at_unrecorded_control_raises:
  "split_time (splits (hd missed_results) ! 1) = None \<and>
   compute_best_split_times missed_results (control_code (splits (hd missed_results) ! 1)) = None \<and>
   add_split_analysis missed_results (compute_best_split_times missed_results) = Inl KeyError \<and>
   process_xml (parsed_as (result_doc (Some ''Cup'') [missed_second])) [] = Inl KeyError"
proof -
  have "split_time (splits (hd missed_results) ! 1) = None"
    by (simp add: missed_results_def)
  moreover have "compute_best_split_times missed_results
      (control_code (splits (hd missed_results) ! 1)) = None"
    by (simp add: missed_results_def compute_best_split_times_def best_step_def)
  moreover have "process_xml (parsed_as (result_doc (Some ''Cup'') [missed_second])) []
      = Inl KeyError"
    by (simp add: process_xml_def parsed_as_def missed_doc_results missed_doc_event
        missed_results_KeyError)
  ultimately show ?thesis
    using missed_results_KeyError by simp
qed

lemma analyse_splits_frame:
  assumes "analyse_splits best ss = Inr ss'"
  shows "list_all2 (\<lambda>s s'. control_code s' = control_code s \<and> time s' = time s \<and>
                      split_time s' = split_time s) ss ss'"
  using analyse_splits_all2 [OF assms]
  by (rule list_all2_mono) (simp add: analyse_split_Inr)

text \<open>
  C9. The annotation pass leaves the name, club, status, position and total time of every
  competitor and the control code, time and split time of every split as they were; and
  in a report the event data is the one extracted from the document, the results are the
  output of the pass on the extracted result list.
\<close>

theorem annotation_changes_only_gap_fields:
  "(add_split_analysis result_list best = Inr annotated \<longrightarrow>
      list_all2 (\<lambda>p p'. name p' = name p \<and> club p' = club p \<and> status p' = status p \<and>
                   position p' = position p \<and> total_time p' = total_time p \<and>
                   list_all2 (\<lambda>s s'. control_code s' = control_code s \<and> time s' = time s \<and>
                                split_time s' = split_time s) (splits p) (splits p'))
        result_list annotated) \<and>
   (fromstring xml = Inr xroot \<and> process_xml fromstring xml = Inr r \<longrightarrow>
      extract_event_data xroot = Inr (event_data r) \<and>
      (\<exists>rl. extract_result_list xroot = Inr rl \<and>
            add_split_analysis rl (compute_best_split_times rl) = Inr (results r)))"
proof -
  have frame: "list_all2 (\<lambda>p p'. name p' = name p \<and> club p' = club p \<and> status p' = status p \<and>
                   position p' = position p \<and> total_time p' = total_time p \<and>
                   list_all2 (\<lambda>s s'. control_code s' = control_code s \<and> time s' = time s \<and>
                                split_time s' = split_time s) (splits p) (splits p'))
        result_list annotated"
    if "add_split_analysis result_list best = Inr annotated"
    using add_split_analysis_all2 [OF that]
    by (rule list_all2_mono) (auto intro: analyse_splits_frame)
  have whole: "extract_event_data xroot = Inr (event_data r) \<and>
      (\<exists>rl. extract_result_list xroot = Inr rl \<and>
            add_split_analysis rl (compute_best_split_times rl) = Inr (results r))"
    if "fromstring xml = Inr xroot \<and> process_xml fromstring xml = Inr r"
    using process_xml_Inr [of fromstring xml r] that by auto
  from frame whole show ?thesis by blast
qed

theorem annotation_changes_only_gap_fields_witness:
  "add_split_analysis two_results (compute_best_split_times two_results) = Inr two_annotated \<and>
   list_all2 (\<lambda>p p'. name p' = name p \<and> club p' = club p \<and> status p' = status p \<and>
                position p' = position p \<and> total_time p' = total_time p \<and>
                list_all2 (\<lambda>s s'. control_code s' = control_code s \<and> time s' = time s \<and>
                             split_time s' = split_time s) (splits p) (splits p'))
     two_results two_annotated \<and>
   parsed_as two_runners [] = Inr two_runners \<and>
   process_xml (parsed_as two_runners) [] = Inr two_report \<and>
   extract_event_data two_runners = Inr (event_data two_report) \<and>
   extract_result_list two_runners = Inr two_results \<and>
   results two_report = two_annotated"
proof -
  have a: "parsed_as two_runners [] = Inr two_runners"
    by (simp add: parsed_as_def)
  from annotation_changes_only_gap_fields
    [of two_results "compute_best_split_times two_results" two_annotated
      "parsed_as two_runners" "[]" two_runners two_report]
    two_results_annotated a two_runners_report two_runners_results
  show ?thesis by (simp add: two_report_def)
qed

section \<open>The report as a whole\<close>

text \<open>
  C1. In every report the winning time is the total time of the first result, which is the
  total time of the first PersonResult element in document order. In the sample the second
  competitor is faster (200 against 300) and the winning time is 300.
\<close>

theorem winning_time_is_first_total:
  assumes "fromstring xml = Inr xroot" and "process_xml fromstring xml = Inr r"
  shows "\<exists>first rest pr prs p.
           results r = first # rest \<and> winning_time r = total_time first \<and>
           findall xroot (Desc ''PersonResult'') = pr # prs \<and>
           extract_person_result pr = Inr p \<and> total_time first = total_time p"
proof -
  from process_xml_Inr [OF assms(2)] assms(1)
  obtain ev rl first rest where
    rl: "extract_result_list xroot = Inr rl"
    and an: "add_split_analysis rl (compute_best_split_times rl) = Inr (first # rest)"
    and r: "r = \<lparr>event_data = ev, results = first # rest, winning_time = total_time first\<rparr>"
    by auto
  from add_split_analysis_all2 [OF an]
  obtain p ps where ps: "rl = p # ps" and tt: "total_time first = total_time p"
    by (auto simp: list_all2_Cons2)
  from rl ps obtain pr prs where
    "findall xroot (Desc ''PersonResult'') = pr # prs" "extract_person_result pr = Inr p"
    unfolding extract_result_list_def
    by (cases "findall xroot (Desc ''PersonResult'')") (auto split: sum.splits)
  with r tt show ?thesis by auto
qed

theorem winning_time_is_first_total_witness:
  "parsed_as two_runners [] = Inr two_runners \<and>
   process_xml (parsed_as two_runners) [] = Inr two_report \<and>
   winning_time two_report = 300 \<and>
   total_time (results two_report ! 1) = 200 \<and>
   (\<exists>first rest pr prs p.
      results two_report = first # rest \<and> winning_time two_report = total_time first \<and>
      findall two_runners (Desc ''PersonResult'') = pr # prs \<and>
      extract_person_result pr = Inr p \<and> total_time first = total_time p)"
proof -
  have a: "parsed_as two_runners [] = Inr two_runners"
    by (simp add: parsed_as_def)
  have b: "winning_time two_report = 300 \<and> total_time (results two_report ! 1) = 200"
    by (simp add: two_report_def two_annotated_def)
  from winning_time_is_first_total [OF a two_runners_report] a b two_runners_report
  show ?thesis by blast
qed

lemma empty_class_event:
  "extract_event_data (result_doc (Some ''Cup'') []) =
     Inr \<lparr>ev_name = Some ''Cup'', ev_class = Some ''H21'', ev_date = Some ''2024-05-01''\<rparr>"
  by code_simp

lemma empty_class_no_person: "findall (result_doc (Some ''Cup'') []) (Desc ''PersonResult'') = []"
  by code_simp

text \<open>
  C10. A document with the event and class data and no PersonResult element: the result
  list is empty and indexing it for the winning time raises IndexError.
\<close>

theorem no_person_result_raises:
  assumes "fromstring xml = Inr xroot" and "extract_event_data xroot = Inr ev"
    and "findall xroot (Desc ''PersonResult'') = []"
  shows "process_xml fromstring xml = Inl IndexError"
  using assms
  by (simp add: process_xml_def extract_result_list_def compute_best_split_times_def)

theorem no_person_result_raises_witness:
  "parsed_as (result_doc (Some ''Cup'') []) [] = Inr (result_doc (Some ''Cup'') []) \<and>
   extract_event_data (result_doc (Some ''Cup'') []) =
     Inr \<lparr>ev_name = Some ''Cup'', ev_class = Some ''H21'', ev_date = Some ''2024-05-01''\<rparr> \<and>
   findall (result_doc (Some ''Cup'') []) (Desc ''PersonResult'') = [] \<and>
   process_xml (parsed_as (result_doc (Some ''Cup'') [])) [] = Inl IndexError"
proof -
  have a: "parsed_as (result_doc (Some ''Cup'') []) [] = Inr (result_doc (Some ''Cup'') [])"
    by (simp add: parsed_as_def)
  from no_person_result_raises
    [of "parsed_as (result_doc (Some ''Cup'') [])" "[]" "result_doc (Some ''Cup'') []",
      OF a empty_class_event empty_class_no_person]
    a empty_class_event empty_class_no_person
  show ?thesis by simp
qed

section \<open>Division by the best split time\<close>

lemma standing_doc_results: "extract_result_list standing_doc = Inr standing_start"
  by code_simp

lemma standing_start_best: "compute_best_split_times standing_start (Some ''31'') = Some 0"
  by (simp add: standing_start_def compute_best_split_times_def best_step_def)

text \<open>
  C3, as the code has it. For a split with a present split time \<open>t\<close> at a control whose
  best split time is \<open>b\<close>: when \<open>b = 0\<close> the annotation of that split raises
  ZeroDivisionError, and the pass and the whole of \<open>process_xml\<close> end in an error;
  when \<open>b\<close> is not 0 no division error is raised, and the division still raises
  OverflowError exactly when the magnitude of the quotient reaches \<open>2^1024 - 2^970\<close>;
  otherwise both fields are set.
\<close>

theorem zero_best_split_raises_division_error:
  assumes "best (control_code s) = Some b" and "split_time s = Some t"
  shows "analyse_split best s =
           (if b = 0 then Inl ZeroDivisionError
            else if 2 ^ 1024 - 2 ^ 970 \<le> \<bar>of_int (t - b) / of_int b :: rat\<bar>
            then Inl OverflowError
            else Inr \<lparr>control_code = control_code s, time = time s, split_time = Some t,
                      split_gap = Some (t - b),
                      percentage_gap = Some (of_int (t - b) / of_int b * 100)\<rparr>) \<and>
         (b = 0 \<and> p \<in> set result_list \<and> s \<in> set (splits p) \<and>
          best = compute_best_split_times result_list \<and>
          fromstring xml = Inr xroot \<and> extract_result_list xroot = Inr result_list \<longrightarrow>
            (\<exists>e. add_split_analysis result_list best = Inl e) \<and>
            (\<exists>e. process_xml fromstring xml = Inl e))"
proof -
  have one: "analyse_split best s =
           (if b = 0 then Inl ZeroDivisionError
            else if 2 ^ 1024 - 2 ^ 970 \<le> \<bar>of_int (t - b) / of_int b :: rat\<bar>
            then Inl OverflowError
            else Inr \<lparr>control_code = control_code s, time = time s, split_time = Some t,
                      split_gap = Some (t - b),
                      percentage_gap = Some (of_int (t - b) / of_int b * 100)\<rparr>)"
    using assms by (simp add: analyse_split_def py_truediv_def Let_def)
  have all: "(\<exists>e. add_split_analysis result_list best = Inl e) \<and>
            (\<exists>e. process_xml fromstring xml = Inl e)"
    if h: "b = 0 \<and> p \<in> set result_list \<and> s \<in> set (splits p) \<and>
          best = compute_best_split_times result_list \<and>
          fromstring xml = Inr xroot \<and> extract_result_list xroot = Inr result_list"
  proof -
    from one h have "analyse_split best s = Inl ZeroDivisionError" by simp
    with h obtain e1 where "analyse_splits best (splits p) = Inl e1"
      using analyse_splits_fails by blast
    with h obtain e2 where e2: "add_split_analysis result_list best = Inl e2"
      using add_split_analysis_fails by blast
    with h have "\<exists>e. process_xml fromstring xml = Inl e"
      using process_xml_fails by blast
    with e2 show ?thesis by blast
  qed
  from one all show ?thesis by blast
qed

theorem zero_best_split_raises_division_error_witness:
  "compute_best_split_times standing_start (control_code (splits (hd standing_start) ! 0)) = Some 0 \<and>
   split_time (splits (hd standing_start) ! 0) = Some 0 \<and>
   hd standing_start \<in> set standing_start \<and>
   splits (hd standing_start) ! 0 \<in> set (splits (hd standing_start)) \<and>
   parsed_as standing_doc [] = Inr standing_doc \<and>
   extract_result_list standing_doc = Inr standing_start \<and>
   analyse_split (compute_best_split_times standing_start) (splits (hd standing_start) ! 0)
     = Inl ZeroDivisionError \<and>
   (\<exists>e. add_split_analysis standing_start (compute_best_split_times standing_start) = Inl e) \<and>
   (\<exists>e. process_xml (parsed_as standing_doc) [] = Inl e)"
proof -
  have c: "control_code (splits (hd standing_start) ! 0) = Some ''31''"
    by (simp add: standing_start_def)
  have b: "compute_best_split_times standing_start
      (control_code (splits (hd standing_start) ! 0)) = Some 0"
    by (simp add: c standing_start_best)
  have t: "split_time (splits (hd standing_start) ! 0) = Some 0"
    by (simp add: standing_start_def)
  have p: "hd standing_start \<in> set standing_start"
    by (simp add: standing_start_def)
  have s: "splits (hd standing_start) ! 0 \<in> set (splits (hd standing_start))"
    by (simp add: standing_start_def)
  have a: "parsed_as standing_doc [] = Inr standing_doc"
    by (simp add: parsed_as_def)
  from zero_best_split_raises_division_error
    [of "compute_best_split_times standing_start" "splits (hd standing_start) ! 0" 0 0
      "hd standing_start" standing_start "parsed_as standing_doc" "[]" standing_doc, OF b t]
    b t p s a standing_doc_results
  show ?thesis by simp
qed

text \<open>
  C3, as stated, fails: the only control of \<open>huge_gap\<close> has the best split time 1, and
  the percentage of the second competitor (a gap of \<open>2^1024 - 1\<close> seconds over 1) raises
  OverflowError.
\<close>

theorem nonzero_best_split_can_raise:
  "dom (compute_best_split_times huge_gap) = {Some ''31''} \<and>
   compute_best_split_times huge_gap (Some ''31'') = Some 1 \<and>
   add_split_analysis huge_gap (compute_best_split_times huge_gap) = Inl OverflowError"
  by (simp add: huge_gap_def compute_best_split_times_def best_step_def
      analyse_split_def py_truediv_def)

section \<open>Split times of one competitor\<close>

lemma split_loop_length: "split_loop prev es = Inr sp \<Longrightarrow> length sp = length es"
proof (induction es arbitrary: prev sp)
  case Nil
  then show ?case by simp
next
  case (Cons e es)
  then show ?case
    by (auto simp: Let_def split: sum.splits if_splits)
qed

text \<open>The time and the split time of the first punch, and the rest of the loop.\<close>

lemma split_loop_Cons:
  assumes "split_loop prev (e # es) = Inr sp"
  shows "\<exists>code t rest.
           sp = \<lparr>control_code = code, time = t,
                  split_time =
                    (case prev of
                       None \<Rightarrow> None
                     | Some p \<Rightarrow> (case t of None \<Rightarrow> None | Some n \<Rightarrow> Some (n - p)))\<rparr> # rest \<and>
           split_loop t es = Inr rest \<and>
           (map_of (el_attrib e) ''status'' = Some ''Missing'' \<longrightarrow> t = None)"
  using assms
  by (auto simp: Let_def split: sum.splits if_splits)

lemma split_loop_nth:
  assumes "split_loop prev es = Inr sp" and "i < length es"
  shows "(map_of (el_attrib (es ! i)) ''status'' = Some ''Missing'' \<longrightarrow> time (sp ! i) = None) \<and>
         split_time (sp ! i) =
           (case (if i = 0 then prev else time (sp ! (i - 1))) of
              None \<Rightarrow> None
            | Some p \<Rightarrow> (case time (sp ! i) of None \<Rightarrow> None | Some n \<Rightarrow> Some (n - p)))"
  using assms
proof (induction es arbitrary: prev sp i)
  case Nil
  then show ?case by simp
next
  case (Cons e es)
  from split_loop_Cons [OF Cons.prems(1)]
  obtain code t rest where
    sp: "sp = \<lparr>control_code = code, time = t,
                  split_time =
                    (case prev of
                       None \<Rightarrow> None
                     | Some p \<Rightarrow> (case t of None \<Rightarrow> None | Some n \<Rightarrow> Some (n - p)))\<rparr> # rest"
    and rest: "split_loop t es = Inr rest"
    and m: "map_of (el_attrib e) ''status'' = Some ''Missing'' \<longrightarrow> t = None"
    by blast
  show ?case
  proof (cases i)
    case 0
    with sp m show ?thesis by (simp cong: option.case_cong)
  next
    case (Suc j)
    with Cons.prems(2) have j: "j < length es" by simp
    from Cons.IH [OF rest j] sp Suc show ?thesis
      by (cases j) (simp_all cong: option.case_cong)
  qed
qed

lemma missed_second_splits:
  "compute_split_information missed_second = Inr (splits (hd missed_results))"
  by code_simp

lemma missed_second_status:
  "map_of (el_attrib (findall missed_second (Desc ''SplitTime'') ! 1)) ''status''
     = Some ''Missing''"
  by code_simp

text \<open>
  C4. In the splits of a competitor, a punch with the status \<open>Missing\<close> has no time and
  no split time; the punch after it has no split time, whatever its own time; and when
  that punch has a time \<open>a\<close>, the split time of the punch after it is its own time minus
  \<open>a\<close> (absent when its own time is absent).
\<close>

theorem missing_punch_poisons_next_split:
  assumes "compute_split_information person_result = Inr sp"
    and "i < length sp"
    and "map_of (el_attrib (findall person_result (Desc ''SplitTime'') ! i)) ''status''
           = Some ''Missing''"
  shows "length sp = length (findall person_result (Desc ''SplitTime'')) \<and>
         time (sp ! i) = None \<and> split_time (sp ! i) = None \<and>
         (i + 1 < length sp \<longrightarrow> split_time (sp ! (i + 1)) = None) \<and>
         (i + 2 < length sp \<longrightarrow>
            (\<forall>a. time (sp ! (i + 1)) = Some a \<longrightarrow>
               split_time (sp ! (i + 2)) = map_option (\<lambda>n. n - a) (time (sp ! (i + 2)))))"
proof -
  let ?es = "findall person_result (Desc ''SplitTime'')"
  from assms(1) have loop: "split_loop (Some 0) ?es = Inr sp"
    by (simp add: compute_split_information_def)
  from split_loop_length [OF loop] have len: "length sp = length ?es" .
  from split_loop_nth [OF loop, of i] assms(2,3) len
  have t: "time (sp ! i) = None" and st: "split_time (sp ! i) =
           (case (if i = 0 then Some 0 else time (sp ! (i - 1))) of
              None \<Rightarrow> None
            | Some p \<Rightarrow> (case time (sp ! i) of None \<Rightarrow> None | Some n \<Rightarrow> Some (n - p)))"
    by simp_all
  have s0: "split_time (sp ! i) = None"
    using st t by (auto split: option.splits if_splits)
  have s1: "split_time (sp ! (i + 1)) = None" if "i + 1 < length sp"
    using split_loop_nth [OF loop, of "i + 1"] that len t by simp
  have s2: "split_time (sp ! (i + 2)) = map_option (\<lambda>n. n - a) (time (sp ! (i + 2)))"
    if "i + 2 < length sp" and "time (sp ! (i + 1)) = Some a" for a
    using split_loop_nth [OF loop, of "i + 2"] that len
    by (simp add: numeral_2_eq_2 split: option.splits)
  from len t s0 s1 s2 show ?thesis by blast
qed

theorem missing_punch_poisons_next_split_witness:
  "compute_split_information missed_second = Inr (splits (hd missed_results)) \<and>
   (1::nat) < length (splits (hd missed_results)) \<and>
   map_of (el_attrib (findall missed_second (Desc ''SplitTime'') ! 1)) ''status''
     = Some ''Missing'' \<and>
   1 + 1 < length (splits (hd missed_results)) \<and>
   1 + 2 < length (splits (hd missed_results)) \<and>
   time (splits (hd missed_results) ! 2) = Some 300 \<and>
   time (splits (hd missed_results) ! 1) = None \<and>
   split_time (splits (hd missed_results) ! 1) = None \<and>
   split_time (splits (hd missed_results) ! 2) = None \<and>
   split_time (splits (hd missed_results) ! 3) = Some (420 - 300)"
proof -
  have l: "(1::nat) < length (splits (hd missed_results))"
    by (simp add: missed_results_def)
  have len: "length (splits (hd missed_results)) = 4"
    by (simp add: missed_results_def)
  have t2: "time (splits (hd missed_results) ! 2) = Some 300"
    and t3: "time (splits (hd missed_results) ! 3) = Some 420"
    by (simp_all add: missed_results_def)
  from missing_punch_poisons_next_split [OF missed_second_splits l missed_second_status]
    missed_second_splits missed_second_status len t2 t3
  show ?thesis by (auto simp: missed_results_def)
qed

section \<open>The result of one competitor\<close>

text \<open>What a successful chain of \<^verbatim>\<open>find\<close>, \<^verbatim>\<open>.text\<close> and \<^verbatim>\<open>int\<close> has read.\<close>

lemma find_text_Inr:
  "err_bind (find_opt p x) text_opt = Inr t \<longleftrightarrow>
     (\<exists>e e'. x = Some e \<and> find e p = Some e' \<and> el_text e' = t)"
  by (auto simp: find_opt_def text_opt_def split: option.splits)

lemma find_int_Inr:
  "err_bind (err_bind (find_opt p x) text_opt) py_int = Inr n \<longleftrightarrow>
     (\<exists>e e'. x = Some e \<and> find e p = Some e' \<and> py_int (el_text e') = Inr n)"
  by (auto simp: find_opt_def text_opt_def split: option.splits)

lemma position_Inr:
  "err_bind (err_bind (err_bind (find_opt p x) text_opt) py_int) (\<lambda>n. Inr (Some n)) = Inr v \<longleftrightarrow>
     (\<exists>e e' n. x = Some e \<and> find e p = Some e' \<and> py_int (el_text e') = Inr n \<and> v = Some n)"
  by (auto simp: find_opt_def text_opt_def err_bind_eq_Inr split: option.splits)

lemma extract_person_result_Inr:
  assumes "extract_person_result person_result = Inr p"
  shows "\<exists>nm fam giv org oname res st tm n sp pos.
           find person_result (Desc ''Name'') = Some nm \<and>
           find nm (Child ''Family'') = Some fam \<and> find nm (Child ''Given'') = Some giv \<and>
           find person_result (Desc ''Organisation'') = Some org \<and>
           find org (Child ''Name'') = Some oname \<and>
           find person_result (Desc ''Result'') = Some res \<and>
           find res (Desc ''Status'') = Some st \<and>
           (if el_text st = Some ''OK''
            then \<exists>pe k. find res (Child ''Position'') = Some pe \<and>
                   py_int (el_text pe) = Inr k \<and> pos = Some k
            else pos = None) \<and>
           find res (Desc ''Time'') = Some tm \<and> py_int (el_text tm) = Inr n \<and>
           compute_split_information person_result = Inr sp \<and>
           p = \<lparr>name = py_str (el_text giv) @ '' '' @ py_str (el_text fam),
                club = el_text oname, status = el_text st, position = pos,
                total_time = n, splits = sp\<rparr>"
proof -
  from assms obtain family_name given_name club_name st pos total sp where
    a: "err_bind (find_opt (Child ''Family'') (find person_result (Desc ''Name''))) text_opt
          = Inr family_name"
    and b: "err_bind (find_opt (Child ''Given'') (find person_result (Desc ''Name''))) text_opt
          = Inr given_name"
    and c: "err_bind (find_opt (Child ''Name'') (find person_result (Desc ''Organisation'')))
          text_opt = Inr club_name"
    and d: "err_bind (find_opt (Desc ''Status'') (find person_result (Desc ''Result'')))
          text_opt = Inr st"
    and e: "(if st = Some ''OK''
             then err_bind (err_bind (err_bind
                    (find_opt (Child ''Position'') (find person_result (Desc ''Result'')))
                    text_opt) py_int) (\<lambda>n. Inr (Some n))
             else Inr None) = Inr pos"
    and f: "err_bind (err_bind (find_opt (Desc ''Time'') (find person_result (Desc ''Result'')))
          text_opt) py_int = Inr total"
    and g: "compute_split_information person_result = Inr sp"
    and p: "p = \<lparr>name = py_str given_name @ '' '' @ py_str family_name, club = club_name,
                 status = st, position = pos, total_time = total, splits = sp\<rparr>"
    unfolding extract_person_result_def Let_def err_bind_eq_Inr [where m = "err_bind _ _"]
      err_bind_eq_Inr [where m = "If _ _ _"] err_bind_eq_Inr [where m = "compute_split_information _"]
    by blast
  from a b obtain nm fam giv where
    nm: "find person_result (Desc ''Name'') = Some nm" "find nm (Child ''Family'') = Some fam"
      "find nm (Child ''Given'') = Some giv" "el_text fam = family_name"
      "el_text giv = given_name"
    by (auto simp: find_text_Inr)
  from c obtain org oname where
    org: "find person_result (Desc ''Organisation'') = Some org"
      "find org (Child ''Name'') = Some oname" "el_text oname = club_name"
    by (auto simp: find_text_Inr)
  from d obtain res ste where
    res: "find person_result (Desc ''Result'') = Some res" "find res (Desc ''Status'') = Some ste"
      "el_text ste = st"
    by (auto simp: find_text_Inr)
  from f res obtain tm where tm: "find res (Desc ''Time'') = Some tm" "py_int (el_text tm) = Inr total"
    by (auto simp: find_int_Inr)
  from e res have pos: "if el_text ste = Some ''OK''
            then \<exists>pe k. find res (Child ''Position'') = Some pe \<and>
                   py_int (el_text pe) = Inr k \<and> pos = Some k
            else pos = None"
    by (auto simp: position_Inr split: if_splits)
  from nm org res tm pos g p show ?thesis
    by blast
qed

lemma ann_result: "extract_person_result ann = Inr (hd two_results)"
  by code_simp

lemma missed_second_result: "extract_person_result missed_second = Inr (hd missed_results)"
  by code_simp

text \<open>
  C7. In an extracted result the position is present if and only if the status is exactly
  \<open>OK\<close>; it is then the integer parsed from the Position child of the Result element,
  and for any other status it is absent. (The competitor of \<open>missed_second\<close> has the
  status \<open>MissingPunch\<close> and a Position element: its position is absent.)
\<close>

theorem position_present_iff_status_ok:
  assumes "extract_person_result person_result = Inr p"
  shows "(position p \<noteq> None) = (status p = Some ''OK'') \<and>
         (\<exists>res st. find person_result (Desc ''Result'') = Some res \<and>
            find res (Desc ''Status'') = Some st \<and> status p = el_text st \<and>
            (if status p = Some ''OK''
             then \<exists>pe k. find res (Child ''Position'') = Some pe \<and>
                    py_int (el_text pe) = Inr k \<and> position p = Some k
             else position p = None))"
proof -
  from extract_person_result_Inr [OF assms]
  obtain res st pos where
    r: "find person_result (Desc ''Result'') = Some res" "find res (Desc ''Status'') = Some st"
    and pos: "if el_text st = Some ''OK''
            then \<exists>pe k. find res (Child ''Position'') = Some pe \<and>
                   py_int (el_text pe) = Inr k \<and> pos = Some k
            else pos = None"
    and p: "status p = el_text st" "position p = pos"
    by auto
  from pos p have "(position p \<noteq> None) = (status p = Some ''OK'')"
    by (auto split: if_splits)
  moreover from r pos p have "\<exists>res st. find person_result (Desc ''Result'') = Some res \<and>
            find res (Desc ''Status'') = Some st \<and> status p = el_text st \<and>
            (if status p = Some ''OK''
             then \<exists>pe k. find res (Child ''Position'') = Some pe \<and>
                    py_int (el_text pe) = Inr k \<and> position p = Some k
             else position p = None)"
    by auto
  ultimately show ?thesis by blast
qed

theorem position_present_iff_status_ok_witness:
  "extract_person_result ann = Inr (hd two_results) \<and>
   status (hd two_results) = Some ''OK'' \<and> position (hd two_results) = Some 2 \<and>
   (position (hd two_results) \<noteq> None) = (status (hd two_results) = Some ''OK'') \<and>
   (\<exists>res st. find ann (Desc ''Result'') = Some res \<and>
      find res (Desc ''Status'') = Some st \<and> status (hd two_results) = el_text st \<and>
      (if status (hd two_results) = Some ''OK''
       then \<exists>pe k. find res (Child ''Position'') = Some pe \<and>
              py_int (el_text pe) = Inr k \<and> position (hd two_results) = Some k
       else position (hd two_results) = None))"
proof -
  have "status (hd two_results) = Some ''OK'' \<and> position (hd two_results) = Some 2"
    by (simp add: two_results_def)
  with position_present_iff_status_ok [OF ann_result] ann_result
  show ?thesis by blast
qed

section \<open>Malformed documents\<close>










lemma no_club_raises: "process_xml (parsed_as no_club) [] = Inl AttributeError"
  by code_simp

















end
